theory Spec2Isabelle
  imports Complex_Main
begin

section \<open>Python values and exceptions\<close>

text \<open>
  The typing-match engine is the class \<open>TypingInputWidget\<close> of \<open>typing_game_gui.py\<close>.
  Its integers are Python's unbounded \<open>int\<close>, its strings are Python \<open>str\<close> (one
  \<^typ>\<open>char\<close> stands for one character of the \<open>str\<close>), its floats are the real
  numbers they denote, and the two exceptions its expressions raise on the values a
  session supplies are values of \<open>py_error\<close>.
\<close>

datatype py_error = IndexError | ZeroDivisionError

text \<open>
  \<open>s[i]\<close> on a \<open>str\<close>: an index from \<open>0\<close> to \<open>len(s) - 1\<close> reads from the front, an index
  from \<open>-len(s)\<close> to \<open>-1\<close> reads from the back, any other index raises \<open>IndexError\<close>.
\<close>

definition str_getitem :: "string \<Rightarrow> int \<Rightarrow> py_error + char" where
  "str_getitem s i =
     (if 0 \<le> i \<and> i < int (length s) then Inr (s ! nat i)
      else if - int (length s) \<le> i \<and> i < 0 then Inr (s ! nat (int (length s) + i))
      else Inl IndexError)"

section \<open>Floats\<close>

text \<open>
  A Python \<open>float\<close> is an IEEE 754 double. The result of an arithmetic operation is the
  exact result rounded to the nearest double, ties to the even significand. The three
  definitions below compute that rounding; \<open>bit_length\<close> is \<open>int.bit_length\<close>.
\<close>

function bit_length :: "int \<Rightarrow> nat" where
  "bit_length n = (if n \<le> 0 then 0 else Suc (bit_length (n div 2)))"
  by pat_completeness auto
termination
  by (relation "measure nat") auto

declare bit_length.simps [simp del]

text \<open>
  The exponent of \<open>x \<noteq> 0\<close>, the integer \<open>e\<close> with \<open>2 ^ e \<le> |x| < 2 ^ (e + 1)\<close>, from the
  bit length of the integer part of \<open>|x|\<close> or of its reciprocal.
\<close>

definition binary_exponent :: "real \<Rightarrow> int" where
  "binary_exponent x =
     (if 1 \<le> \<bar>x\<bar> then int (bit_length \<lfloor>\<bar>x\<bar>\<rfloor>) - 1
      else (let k = int (bit_length \<lfloor>1 / \<bar>x\<bar>\<rfloor>)
            in if 1 / \<bar>x\<bar> = 2 powi (k - 1) then 1 - k else - k))"

text \<open>The nearest integer, a tie going to the even one.\<close>

definition round_half_even :: "real \<Rightarrow> int" where
  "round_half_even x =
     (let f = \<lfloor>x\<rfloor>; r = x - of_int f
      in if r < 1 / 2 then f
         else if 1 / 2 < r then f + 1
         else if even f then f else f + 1)"

text \<open>
  The nearest double: a significand of 53 bits at the exponent of \<open>x\<close>, and below the
  smallest normal exponent \<open>-1022\<close> the fixed spacing \<open>2 ^ -1074\<close> of the subnormal
  numbers. There is no largest exponent here: a result of magnitude \<open>2 ^ 1024\<close> or more,
  for which Python raises \<open>OverflowError\<close> on two \<open>int\<close>s and returns \<open>inf\<close> on two
  \<open>float\<close>s, is outside this model, and no position and no count of seconds of a
  session comes near it.
\<close>

definition round_double :: "real \<Rightarrow> real" where
  "round_double x =
     (if x = 0 then 0
      else (let e = max (binary_exponent x) (- 1022);
                ulp = 2 powi (e - 52);
                m = of_int (round_half_even (\<bar>x\<bar> / ulp)) * ulp
            in if x < 0 then - m else m))"

text \<open>
  \<open>a / b\<close>, Python's true division: \<open>ZeroDivisionError\<close> on a zero divisor, else the
  exact quotient rounded once to the nearest double, which is what CPython computes for
  two \<open>int\<close>s and what IEEE 754 division gives for two \<open>float\<close>s.
\<close>

definition truediv :: "real \<Rightarrow> real \<Rightarrow> py_error + real" where
  "truediv a b = (if b = 0 then Inl ZeroDivisionError else Inr (round_double (a / b)))"

definition newline :: char where
  "newline = CHR 0x0A"

section \<open>Qt key events and what the widget does to its surroundings\<close>

text \<open>
  A \<open>QKeyEvent\<close> as \<open>keyPressEvent\<close> reads it: \<open>event.key()\<close>, \<open>event.text()\<close> and
  \<open>event.modifiers()\<close>. Only the two Enter keys are told apart from the other keys.
\<close>

datatype qt_key = Key_Return | Key_Enter | Key_Other nat

datatype qt_modifier =
  ShiftModifier | ControlModifier | AltModifier | MetaModifier | KeypadModifier
  | GroupSwitchModifier

record key_event =
  ev_key :: qt_key
  ev_text :: string
  ev_modifiers :: "qt_modifier set"

text \<open>
  Everything a method does besides updating the four fields of the widget, in the order
  of the source: the two signals, and the calls into Qt (\<open>self.clear()\<close>,
  \<open>cursor.insertText\<close>, \<open>event.accept()\<close>, \<open>super().keyPressEvent(event)\<close>). None of
  the slots connected to the signals writes a field of the widget.
\<close>

datatype effect =
  Typing_progress int bool
  | Typing_complete
  | Clear
  | InsertText string
  | Accept
  | Super_keyPressEvent

section \<open>TypingInputWidget\<close>

record widget =
  target_code :: string
  current_position :: int
  error_count :: int
  total_keystrokes :: int

text \<open>The fields as \<open>__init__\<close> sets them (lines 77 to 80).\<close>

definition init :: widget where
  "init = \<lparr>target_code = [], current_position = 0, error_count = 0, total_keystrokes = 0\<rparr>"

text \<open>\<open>set_target_code\<close> (lines 82 to 88).\<close>

definition set_target_code :: "widget \<Rightarrow> string \<Rightarrow> widget \<times> effect list" where
  "set_target_code self code =
     (self\<lparr>target_code := code, current_position := 0, error_count := 0,
           total_keystrokes := 0\<rparr>,
      [Clear])"

text \<open>
  The body of the Enter branch of \<open>keyPressEvent\<close> (lines 98 to 129), reached when a
  target is set and the key is Return or Enter.
\<close>

definition keyPressEvent_enter :: "widget \<Rightarrow> py_error + (widget \<times> effect list)" where
  "keyPressEvent_enter self =
     (if current_position self < int (length (target_code self)) then
        (case str_getitem (target_code self) (current_position self) of
           Inl err \<Rightarrow> Inl err
         | Inr expected_char \<Rightarrow>
             (let s1 = self\<lparr>total_keystrokes := total_keystrokes self + 1\<rparr>;
                  is_correct = (expected_char = newline);
                  s2 = (if \<not> is_correct then s1\<lparr>error_count := error_count s1 + 1\<rparr> else s1);
                  out1 = [Typing_progress (current_position s2) is_correct]
              in if is_correct then
                   (let s3 = s2\<lparr>current_position := current_position s2 + 1\<rparr>;
                        out2 = out1 @ [InsertText [newline]]
                    in if current_position s3 \<ge> int (length (target_code s3))
                       then Inr (s3, out2 @ [Typing_complete] @ [Accept])
                       else Inr (s3, out2 @ [Accept]))
                 else Inr (s2, out1 @ [Accept])))
      else Inr (self, [Accept]))"

text \<open>
  The body of the character branch (lines 133 to 163), reached when a target is set, the
  key is not an Enter key, \<open>event.text()\<close> is not empty and neither Control nor Alt is
  held. \<open>typed_char\<close> is \<open>event.text()\<close>, a \<open>str\<close>, compared with the one-character
  \<open>str\<close> read from the target.
\<close>

definition keyPressEvent_char :: "widget \<Rightarrow> string \<Rightarrow> py_error + (widget \<times> effect list)" where
  "keyPressEvent_char self typed_char =
     (if current_position self < int (length (target_code self)) then
        (case str_getitem (target_code self) (current_position self) of
           Inl err \<Rightarrow> Inl err
         | Inr expected_char \<Rightarrow>
             (let s1 = self\<lparr>total_keystrokes := total_keystrokes self + 1\<rparr>;
                  is_correct = (typed_char = [expected_char]);
                  s2 = (if \<not> is_correct then s1\<lparr>error_count := error_count s1 + 1\<rparr> else s1);
                  out1 = [Typing_progress (current_position s2) is_correct]
              in if is_correct then
                   (let s3 = s2\<lparr>current_position := current_position s2 + 1\<rparr>;
                        out2 = out1 @ [InsertText typed_char]
                    in if current_position s3 \<ge> int (length (target_code s3))
                       then Inr (s3, out2 @ [Typing_complete] @ [Accept])
                       else Inr (s3, out2 @ [Accept]))
                 else Inr (s2, out1 @ [Accept])))
      else Inr (self, [Accept]))"

text \<open>\<open>keyPressEvent\<close> (lines 90 to 166): the three guards, in the order of the source.\<close>

definition keyPressEvent :: "widget \<Rightarrow> key_event \<Rightarrow> py_error + (widget \<times> effect list)" where
  "keyPressEvent self event =
     (if target_code self = [] then Inr (self, [])
      else if ev_key event = Key_Return \<or> ev_key event = Key_Enter then
        keyPressEvent_enter self
      else if ev_text event \<noteq> [] \<and> ev_modifiers event \<inter> {ControlModifier, AltModifier} = {}
      then keyPressEvent_char self (ev_text event)
      else Inr (self, [Super_keyPressEvent]))"

text \<open>
  The event loop hands the widget one key event at a time, each handled to its end before
  the next; an exception ends the run.
\<close>

fun keyPressEvents :: "widget \<Rightarrow> key_event list \<Rightarrow> py_error + (widget \<times> effect list)" where
  "keyPressEvents self [] = Inr (self, [])"
| "keyPressEvents self (event # events) =
     (case keyPressEvent self event of
        Inl err \<Rightarrow> Inl err
      | Inr (s1, out1) \<Rightarrow>
          (case keyPressEvents s1 events of
             Inl err \<Rightarrow> Inl err
           | Inr (s2, out2) \<Rightarrow> Inr (s2, out1 @ out2)))"

text \<open>
  \<open>get_progress_percentage\<close> (lines 168 to 172): the quotient, then the product with
  100, each rounded.
\<close>

definition get_progress_percentage :: "widget \<Rightarrow> py_error + real" where
  "get_progress_percentage self =
     (if target_code self = [] then Inr 0
      else (case truediv (real_of_int (current_position self))
                         (real (length (target_code self))) of
              Inl err \<Rightarrow> Inl err
            | Inr q \<Rightarrow> Inr (round_double (q * 100))))"

text \<open>
  \<open>get_accuracy\<close> (lines 174 to 178): the quotient, the product with 100.0 and the
  difference from 100.0, each rounded.
\<close>

definition get_accuracy :: "widget \<Rightarrow> py_error + real" where
  "get_accuracy self =
     (if total_keystrokes self = 0 then Inr 100
      else (case truediv (real_of_int (error_count self))
                         (real_of_int (total_keystrokes self)) of
              Inl err \<Rightarrow> Inl err
            | Inr q \<Rightarrow> Inr (round_double (100 - round_double (q * 100)))))"

text \<open>
  \<open>get_wpm\<close> (lines 180 to 192): three divisions, each rounded; the caller passes its
  integer count of seconds.
\<close>

definition get_wpm :: "widget \<Rightarrow> int \<Rightarrow> py_error + real" where
  "get_wpm self elapsed_seconds =
     (if elapsed_seconds = 0 then Inr 0
      else (case truediv (real_of_int (current_position self)) 5 of
              Inl err \<Rightarrow> Inl err
            | Inr words \<Rightarrow>
                (case truediv (real_of_int elapsed_seconds) 60 of
                   Inl err \<Rightarrow> Inl err
                 | Inr minutes \<Rightarrow>
                     if minutes = 0 then Inr 0 else truediv words minutes)))"

section \<open>Reading a run\<close>

text \<open>The outcomes \<open>(position, is_correct)\<close> reported on \<open>typing_progress\<close>, in order.\<close>

fun progress_outcomes :: "effect list \<Rightarrow> (int \<times> bool) list" where
  "progress_outcomes [] = []"
| "progress_outcomes (Typing_progress p ok # out) = (p, ok) # progress_outcomes out"
| "progress_outcomes (_ # out) = progress_outcomes out"

text \<open>How many times \<open>typing_complete\<close> was emitted.\<close>

definition completions :: "effect list \<Rightarrow> nat" where
  "completions out = count_list out Typing_complete"

text \<open>The signals among the effects, without the calls into Qt.\<close>

fun signals :: "effect list \<Rightarrow> effect list" where
  "signals [] = []"
| "signals (Typing_progress p ok # out) = Typing_progress p ok # signals out"
| "signals (Typing_complete # out) = Typing_complete # signals out"
| "signals (_ # out) = signals out"

text \<open>A key with a printable character on it, pressed with no modifier, and the Return key.\<close>

definition char_key :: "char \<Rightarrow> key_event" where
  "char_key c = \<lparr>ev_key = Key_Other (of_char c), ev_text = [c], ev_modifiers = {}\<rparr>"

definition return_key :: key_event where
  "return_key = \<lparr>ev_key = Key_Return, ev_text = [CHR 0x0D], ev_modifiers = {}\<rparr>"

section \<open>Which key events are evaluated\<close>

text \<open>
  The guards of \<open>keyPressEvent\<close>, read off lines 97 and 132: an Enter key, or a key with
  text and neither Control nor Alt held, is compared with the target; every other event
  goes to \<open>QTextEdit\<close>. The text compared is the newline for an Enter key and
  \<open>event.text()\<close> otherwise.
\<close>

definition is_enter :: "key_event \<Rightarrow> bool" where
  "is_enter event = (ev_key event = Key_Return \<or> ev_key event = Key_Enter)"

definition evaluated_key :: "key_event \<Rightarrow> bool" where
  "evaluated_key event =
     (is_enter event \<or>
      (ev_text event \<noteq> [] \<and> ev_modifiers event \<inter> {ControlModifier, AltModifier} = {}))"

definition logical_char :: "key_event \<Rightarrow> string" where
  "logical_char event = (if is_enter event then [newline] else ev_text event)"

text \<open>
  The path condition of the two reads of the target, \<open>self._target_code[self._current_position]\<close>
  on lines 101 and 135.
\<close>

definition reads_expected_char :: "widget \<Rightarrow> key_event \<Rightarrow> bool" where
  "reads_expected_char self event =
     (target_code self \<noteq> [] \<and> evaluated_key event \<and>
      current_position self < int (length (target_code self)))"

text \<open>The invariant of a session (section 3 of the spec).\<close>

definition session_inv :: "widget \<Rightarrow> bool" where
  "session_inv self =
     (0 \<le> current_position self \<and>
      current_position self \<le> int (length (target_code self)) \<and>
      error_count self \<le> total_keystrokes self)"

section \<open>The transition rule as the spec words it\<close>

text \<open>
  Section 4.2 of the spec, steps 1 to 7, for one logical character \<open>c\<close>: ignore the
  event when no target is set or the session is complete; otherwise count the keystroke,
  compare \<open>c\<close> with the expected character, count an error on a mismatch, report
  \<open>(position, isCorrect)\<close>, advance on a match only, and report completion when the
  position has reached the length of the target. It is written from the spec, to be
  compared with \<open>keyPressEvent\<close>.
\<close>

definition spec_transition_rule :: "widget \<Rightarrow> char \<Rightarrow> widget \<times> effect list" where
  "spec_transition_rule s c =
     (if target_code s = [] \<or> current_position s = int (length (target_code s)) then (s, [])
      else
        (let expected = target_code s ! nat (current_position s);
             is_correct = (c = expected);
             counted = s\<lparr>total_keystrokes := total_keystrokes s + 1,
                         error_count := (if is_correct then error_count s
                                         else error_count s + 1)\<rparr>;
             outcome = Typing_progress (current_position s) is_correct
         in if is_correct then
              (let advanced = counted\<lparr>current_position := current_position s + 1\<rparr>
               in (advanced,
                   outcome # (if current_position advanced = int (length (target_code s))
                              then [Typing_complete] else [])))
            else (counted, [outcome])))"

section \<open>setTarget\<close>

text \<open>
  C6. From every prior state of the widget, whatever its target, position, error count
  and keystroke count, \<open>set_target_code\<close> gives the state with the new text as target
  and the three counters at 0: the result does not depend on the prior state.
\<close>

theorem set_target_code_resets:
  "set_target_code self code =
     (\<lparr>target_code = code, current_position = 0, error_count = 0, total_keystrokes = 0\<rparr>,
      [Clear])
   \<and> set_target_code self code = set_target_code other code"
  by (simp add: set_target_code_def)

section \<open>Rounding to a double\<close>

lemma bit_length_bounds:
  "0 < n \<Longrightarrow> 2 ^ (bit_length n - 1) \<le> n \<and> n < 2 ^ bit_length n"
proof (induction n rule: bit_length.induct)
  case (1 n)
  show ?case
  proof (cases "n div 2 \<le> 0")
    case True
    with "1.prems" have "n = 1" by presburger
    then show ?thesis by (simp add: bit_length.simps)
  next
    case False
    with "1.IH" "1.prems"
    have ih: "2 ^ (bit_length (n div 2) - 1) \<le> n div 2" "n div 2 < 2 ^ bit_length (n div 2)"
      by simp_all
    have pos: "bit_length (n div 2) \<noteq> 0"
      using False by (subst bit_length.simps) simp
    have len: "bit_length n = Suc (bit_length (n div 2))"
      using "1.prems" by (subst bit_length.simps) simp
    from ih(1) pos have "2 ^ bit_length (n div 2) \<le> 2 * (n div 2)"
      by (cases "bit_length (n div 2)") simp_all
    then have low: "2 ^ bit_length (n div 2) \<le> n" by presburger
    from ih(2) have "n < 2 * 2 ^ bit_length (n div 2)" by presburger
    with low len show ?thesis by simp
  qed
qed

lemma bit_length_real_bounds:
  fixes y :: real
  assumes "1 \<le> y"
  obtains m where "bit_length \<lfloor>y\<rfloor> = Suc m" and "2 ^ m \<le> y" and "y < 2 * 2 ^ m"
proof -
  define n where "n = \<lfloor>y\<rfloor>"
  from assms have n: "0 < n" "real_of_int n \<le> y" "y < real_of_int n + 1"
    unfolding n_def by linarith+
  from bit_length_bounds [OF n(1)]
  have b: "2 ^ (bit_length n - 1) \<le> n" "n < 2 ^ bit_length n" by simp_all
  from b(2) n(1) obtain m where m: "bit_length n = Suc m"
    by (cases "bit_length n") auto
  from b(1) have "(2::int) ^ m \<le> n" unfolding m by simp
  then have "(2::real) ^ m \<le> real_of_int n"
    by (simp only: numeral_power_le_of_int_cancel_iff)
  with n(2) have low: "2 ^ m \<le> y" by linarith
  from b(2) have "n + 1 \<le> 2 ^ Suc m" unfolding m by simp
  then have "real_of_int (n + 1) \<le> 2 ^ Suc m"
    by (simp only: of_int_le_numeral_power_cancel_iff)
  then have "real_of_int n + 1 \<le> 2 * 2 ^ m" by simp
  with n(3) have high: "y < 2 * 2 ^ m" by linarith
  from m low high show thesis unfolding n_def by (rule that)
qed

lemma binary_exponent_bounds:
  assumes "x \<noteq> 0"
  shows "2 powi binary_exponent x \<le> \<bar>x\<bar>" and "\<bar>x\<bar> < 2 powi (binary_exponent x + 1)"
proof -
  have "2 powi binary_exponent x \<le> \<bar>x\<bar> \<and> \<bar>x\<bar> < 2 powi (binary_exponent x + 1)"
  proof (cases "1 \<le> \<bar>x\<bar>")
    case True
    then obtain m where m: "bit_length \<lfloor>\<bar>x\<bar>\<rfloor> = Suc m"
      and low: "2 ^ m \<le> \<bar>x\<bar>" and high: "\<bar>x\<bar> < 2 * 2 ^ m"
      by (rule bit_length_real_bounds)
    have e: "binary_exponent x = int m"
      unfolding binary_exponent_def m using True by simp
    have "(2::real) powi (binary_exponent x + 1) = 2 * 2 ^ m"
      unfolding e by (simp add: power_int_add)
    with low high show ?thesis by (simp add: e)
  next
    case False
    define y where "y = 1 / \<bar>x\<bar>"
    from False assms have y: "1 < y" "0 < \<bar>x\<bar>" "\<bar>x\<bar> = 1 / y"
      by (simp_all add: y_def)
    then have "1 \<le> y" by simp
    then obtain m where m: "bit_length \<lfloor>y\<rfloor> = Suc m"
      and ylow: "2 ^ m \<le> y" and yhigh: "y < 2 * 2 ^ m"
      by (rule bit_length_real_bounds)
    have "binary_exponent x =
        (if y = 2 powi (int (bit_length \<lfloor>y\<rfloor>) - 1) then 1 - int (bit_length \<lfloor>y\<rfloor>)
         else - int (bit_length \<lfloor>y\<rfloor>))"
      unfolding binary_exponent_def y_def Let_def using False by simp
    then have unfolded: "binary_exponent x = (if y = 2 ^ m then - int m else - int m - 1)"
      unfolding m by simp
    have pos: "(0::real) < 2 ^ m" by simp
    show ?thesis
    proof (cases "y = 2 ^ m")
      case True
      have e: "binary_exponent x = - int m"
        unfolding unfolded using True by simp
      have low: "(2::real) powi binary_exponent x = \<bar>x\<bar>"
        unfolding e y(3) True by (simp add: power_int_minus_divide)
      have "(2::real) powi (binary_exponent x + 1) = 2 * \<bar>x\<bar>"
        unfolding e y(3) True by (simp add: power_int_diff)
      with y(2) low show ?thesis by simp
    next
      case neq: False
      have e: "binary_exponent x = - int m - 1"
        unfolding unfolded using neq by simp
      from ylow neq have ystrict: "2 ^ m < y" by simp
      have p1: "(2::real) powi binary_exponent x = 1 / (2 * 2 ^ m)"
        unfolding e by (simp add: power_int_diff power_int_minus_divide)
      have p2: "(2::real) powi (binary_exponent x + 1) = 1 / 2 ^ m"
        unfolding e by (simp add: power_int_minus_divide)
      have "1 / (2 * 2 ^ m) < 1 / y"
        using yhigh y(1) by (simp add: frac_less2)
      moreover have "1 / y < 1 / 2 ^ m"
        using ystrict pos by (simp add: frac_less2)
      ultimately show ?thesis unfolding p1 p2 y(3) by simp
    qed
  qed
  then show "2 powi binary_exponent x \<le> \<bar>x\<bar>" and "\<bar>x\<bar> < 2 powi (binary_exponent x + 1)"
    by simp_all
qed

lemma round_double_zero: "round_double 0 = 0"
  by (simp add: round_double_def)

lemma round_half_even_ge_floor: "\<lfloor>x\<rfloor> \<le> round_half_even x"
  by (simp add: round_half_even_def Let_def)

lemma round_double_nonzero:
  assumes "2 powi (- 1074) \<le> \<bar>x\<bar>"
  shows "round_double x \<noteq> 0"
proof -
  have small: "(0::real) < 2 powi (- 1074)" by simp
  with assms have x: "x \<noteq> 0" by auto
  define e where "e = max (binary_exponent x) (- 1022)"
  define ulp :: real where "ulp = 2 powi (e - 52)"
  have ulp_pos: "0 < ulp" by (simp add: ulp_def)
  have "ulp \<le> \<bar>x\<bar>"
  proof (cases "binary_exponent x \<le> - 1022")
    case True
    then have "e = - 1022" by (simp add: e_def)
    then have "ulp = 2 powi (- 1074)" by (simp add: ulp_def)
    with assms show ?thesis by simp
  next
    case False
    then have "e = binary_exponent x" by (simp add: e_def)
    then have "ulp \<le> 2 powi binary_exponent x"
      unfolding ulp_def by (simp add: power_int_increasing)
    also have "\<dots> \<le> \<bar>x\<bar>" by (rule binary_exponent_bounds(1) [OF x])
    finally show ?thesis .
  qed
  with ulp_pos have "1 \<le> \<bar>x\<bar> / ulp" by simp
  then have "1 \<le> \<lfloor>\<bar>x\<bar> / ulp\<rfloor>" by simp
  with round_half_even_ge_floor [of "\<bar>x\<bar> / ulp"]
  have one: "1 \<le> round_half_even (\<bar>x\<bar> / ulp)" by linarith
  define r where "r = real_of_int (round_half_even (\<bar>x\<bar> / ulp)) * ulp"
  with ulp_pos one have r: "0 < r" by simp
  have "round_double x = (if x < 0 then - r else r)"
    unfolding round_double_def Let_def r_def ulp_def e_def using x by simp
  with r show ?thesis by simp
qed

lemma round_double_minutes:
  assumes "elapsed_seconds \<noteq> 0"
  shows "round_double (real_of_int elapsed_seconds / 60) \<noteq> 0"
proof (rule round_double_nonzero)
  from assms have "1 \<le> \<bar>elapsed_seconds\<bar>" by simp
  then have "1 \<le> real_of_int \<bar>elapsed_seconds\<bar>" by (simp only: of_int_1_le_iff)
  then have sixtieth: "1 / 60 \<le> \<bar>real_of_int elapsed_seconds / 60\<bar>" by simp
  have "(2::real) powi (- 1074) \<le> 2 powi (- 6)"
    by (rule power_int_increasing) simp_all
  also have "\<dots> \<le> 1 / 60" by (simp add: power_int_minus_divide)
  also note sixtieth
  finally show "2 powi (- 1074) \<le> \<bar>real_of_int elapsed_seconds / 60\<bar>" .
qed

section \<open>One key event\<close>

lemma str_getitem_in_range:
  "0 \<le> i \<Longrightarrow> i < int (length s) \<Longrightarrow> str_getitem s i = Inr (s ! nat i)"
  by (simp add: str_getitem_def)

lemma keyPressEvent_enter_as_char:
  "keyPressEvent_enter self = keyPressEvent_char self [newline]"
  by (auto simp: keyPressEvent_enter_def keyPressEvent_char_def Let_def split: sum.splits)

lemma keyPressEvent_logical:
  "target_code self \<noteq> [] \<Longrightarrow> evaluated_key event \<Longrightarrow>
   keyPressEvent self event = keyPressEvent_char self (logical_char event)"
  by (auto simp: keyPressEvent_def evaluated_key_def logical_char_def is_enter_def
      keyPressEvent_enter_as_char)

lemma keyPressEvent_char_in_range:
  assumes "0 \<le> current_position self"
    and "current_position self < int (length (target_code self))"
  shows "keyPressEvent_char self c =
    (if c = [target_code self ! nat (current_position self)] then
       Inr (self\<lparr>current_position := current_position self + 1,
                 total_keystrokes := total_keystrokes self + 1\<rparr>,
            [Typing_progress (current_position self) True, InsertText c] @
            (if current_position self + 1 = int (length (target_code self))
             then [Typing_complete] else []) @ [Accept])
     else
       Inr (self\<lparr>error_count := error_count self + 1,
                 total_keystrokes := total_keystrokes self + 1\<rparr>,
            [Typing_progress (current_position self) False, Accept]))"
  using assms
  by (auto simp: keyPressEvent_char_def str_getitem_in_range Let_def)

lemma keyPressEvent_char_done:
  "int (length (target_code self)) \<le> current_position self \<Longrightarrow>
   keyPressEvent_char self c = Inr (self, [Accept])"
  by (simp add: keyPressEvent_char_def)


lemma keyPressEvent_no_target:
  "target_code self = [] \<Longrightarrow> keyPressEvent self event = Inr (self, [])"
  by (simp add: keyPressEvent_def)

lemma keyPressEvent_passed_on:
  "target_code self \<noteq> [] \<Longrightarrow> \<not> evaluated_key event \<Longrightarrow>
   keyPressEvent self event = Inr (self, [Super_keyPressEvent])"
  by (auto simp: keyPressEvent_def evaluated_key_def is_enter_def)

text \<open>
  The two evaluating branches of \<open>keyPressEvent\<close> are one rule on the logical character
  of the event.
\<close>

lemma keyPressEvent_unified:
  "keyPressEvent self event =
     (if target_code self = [] then Inr (self, [])
      else if evaluated_key event then keyPressEvent_char self (logical_char event)
      else Inr (self, [Super_keyPressEvent]))"
  by (simp add: keyPressEvent_no_target keyPressEvent_passed_on keyPressEvent_logical)

lemma completions_simps:
  "completions [] = 0"
  "completions (Typing_complete # out) = Suc (completions out)"
  "completions (Typing_progress p ok # out) = completions out"
  "completions (Clear # out) = completions out"
  "completions (InsertText t # out) = completions out"
  "completions (Accept # out) = completions out"
  "completions (Super_keyPressEvent # out) = completions out"
  by (simp_all add: completions_def)

lemma completions_append: "completions (xs @ ys) = completions xs + completions ys"
  by (induction xs) (auto simp: completions_def)

lemma completions_pos_iff: "0 < completions out \<longleftrightarrow> Typing_complete \<in> set out"
  by (induction out) (auto simp: completions_def)

lemma keyPressEvent_step:
  assumes "session_inv self"
  shows "\<exists>s' out. keyPressEvent self event = Inr (s', out) \<and> session_inv s' \<and>
           target_code s' = target_code self \<and>
           current_position self \<le> current_position s' \<and>
           error_count self \<le> error_count s' \<and>
           total_keystrokes self \<le> total_keystrokes s' \<and>
           completions out =
             (if current_position self < int (length (target_code self)) \<and>
                 current_position s' = int (length (target_code self))
              then 1 else 0)"
proof (cases "target_code self = []")
  case True
  with assms show ?thesis
    by (simp add: keyPressEvent_no_target session_inv_def completions_simps)
next
  case target: False
  show ?thesis
  proof (cases "evaluated_key event")
    case False
    with target assms show ?thesis
      by (simp add: keyPressEvent_passed_on session_inv_def completions_simps)
  next
    case True
    show ?thesis
    proof (cases "current_position self < int (length (target_code self))")
      case False
      with target True assms show ?thesis
        by (simp add: keyPressEvent_logical keyPressEvent_char_done session_inv_def
            completions_simps)
    next
      case inside: True
      from assms have "0 \<le> current_position self"
        by (simp add: session_inv_def)
      from keyPressEvent_char_in_range [OF this inside, of "logical_char event"]
        target True assms inside
      show ?thesis
        by (auto simp: keyPressEvent_logical session_inv_def completions_simps)
    qed
  qed
qed


lemma keyPressEvents_append:
  "keyPressEvents self (es @ es') =
     (case keyPressEvents self es of
        Inl err \<Rightarrow> Inl err
      | Inr (s1, out1) \<Rightarrow>
          (case keyPressEvents s1 es' of
             Inl err \<Rightarrow> Inl err
           | Inr (s2, out2) \<Rightarrow> Inr (s2, out1 @ out2)))"
  by (induction es arbitrary: self) (auto split: sum.splits)

lemma keyPressEvents_run:
  assumes "session_inv self"
  shows "\<exists>s' out. keyPressEvents self es = Inr (s', out) \<and> session_inv s' \<and>
           target_code s' = target_code self \<and>
           current_position self \<le> current_position s' \<and>
           error_count self \<le> error_count s' \<and>
           total_keystrokes self \<le> total_keystrokes s' \<and>
           completions out =
             (if current_position self < int (length (target_code self)) \<and>
                 current_position s' = int (length (target_code self))
              then 1 else 0)"
  using assms
proof (induction es arbitrary: self)
  case Nil
  then show ?case by (simp add: completions_simps)
next
  case (Cons e es)
  from keyPressEvent_step [OF Cons.prems, of e]
  obtain s1 out1 where first: "keyPressEvent self e = Inr (s1, out1)"
    and inv1: "session_inv s1"
    and same1: "target_code s1 = target_code self"
    and mono1: "current_position self \<le> current_position s1"
      "error_count self \<le> error_count s1" "total_keystrokes self \<le> total_keystrokes s1"
    and done1: "completions out1 =
      (if current_position self < int (length (target_code self)) \<and>
          current_position s1 = int (length (target_code self)) then 1 else 0)"
    by blast
  from Cons.IH [OF inv1]
  obtain s2 out2 where rest: "keyPressEvents s1 es = Inr (s2, out2)"
    and inv2: "session_inv s2"
    and same2: "target_code s2 = target_code s1"
    and mono2: "current_position s1 \<le> current_position s2"
      "error_count s1 \<le> error_count s2" "total_keystrokes s1 \<le> total_keystrokes s2"
    and done2: "completions out2 =
      (if current_position s1 < int (length (target_code s1)) \<and>
          current_position s2 = int (length (target_code s1)) then 1 else 0)"
    by blast
  have run: "keyPressEvents self (e # es) = Inr (s2, out1 @ out2)"
    by (simp add: first rest)
  have bound: "current_position s2 \<le> int (length (target_code self))"
    using inv2 same1 same2 by (simp add: session_inv_def)
  have count: "completions (out1 @ out2) =
      (if current_position self < int (length (target_code self)) \<and>
          current_position s2 = int (length (target_code self)) then 1 else 0)"
    using done1 done2 mono1(1) mono2(1) bound same1
    by (simp add: completions_append split: if_splits)
  show ?case
    using run inv2 same1 same2 mono1 mono2 count by auto
qed

lemma set_target_code_inv: "session_inv (fst (set_target_code self code))"
  by (simp add: set_target_code_def session_inv_def)

lemma set_target_code_fields:
  "target_code (fst (set_target_code self code)) = code"
  "current_position (fst (set_target_code self code)) = 0"
  "error_count (fst (set_target_code self code)) = 0"
  "total_keystrokes (fst (set_target_code self code)) = 0"
  by (simp_all add: set_target_code_def)

lemma keyPressEvent_ignored:
  assumes "target_code self = [] \<or> int (length (target_code self)) \<le> current_position self"
  shows "\<exists>out. keyPressEvent self event = Inr (self, out) \<and>
           progress_outcomes out = [] \<and> completions out = 0 \<and> signals out = []"
proof (cases "target_code self = []")
  case True
  then show ?thesis by (simp add: keyPressEvent_no_target completions_simps)
next
  case target: False
  with assms have at_end: "int (length (target_code self)) \<le> current_position self"
    by simp
  show ?thesis
  proof (cases "evaluated_key event")
    case True
    with target at_end show ?thesis
      by (simp add: keyPressEvent_logical keyPressEvent_char_done completions_simps)
  next
    case False
    with target show ?thesis
      by (simp add: keyPressEvent_passed_on completions_simps)
  qed
qed

lemma keyPressEvent_char_complete_iff:
  assumes "keyPressEvent_char self c = Inr (s', out)"
  shows "Typing_complete \<in> set out \<longleftrightarrow>
           Typing_progress (current_position self) True \<in> set out \<and>
           current_position s' = current_position self + 1 \<and>
           current_position s' = int (length (target_code s'))"
    and "completions out \<le> 1"
  using assms
  by (auto simp: keyPressEvent_char_def Let_def completions_simps
      split: if_splits sum.splits)

lemma keyPressEvent_complete_iff:
  assumes "keyPressEvent self event = Inr (s', out)"
  shows "Typing_complete \<in> set out \<longleftrightarrow>
           Typing_progress (current_position self) True \<in> set out \<and>
           current_position s' = current_position self + 1 \<and>
           current_position s' = int (length (target_code s'))"
    and "completions out \<le> 1"
proof -
  consider "target_code self = []"
    | "target_code self \<noteq> []" "\<not> evaluated_key event"
    | "target_code self \<noteq> []" "evaluated_key event"
    by blast
  then have "(Typing_complete \<in> set out \<longleftrightarrow>
           Typing_progress (current_position self) True \<in> set out \<and>
           current_position s' = current_position self + 1 \<and>
           current_position s' = int (length (target_code s'))) \<and> completions out \<le> 1"
  proof cases
    case 1
    with assms show ?thesis by (auto simp: keyPressEvent_no_target completions_simps)
  next
    case 2
    with assms show ?thesis by (auto simp: keyPressEvent_passed_on completions_simps)
  next
    case 3
    with assms have "keyPressEvent_char self (logical_char event) = Inr (s', out)"
      by (simp add: keyPressEvent_logical)
    from keyPressEvent_char_complete_iff [OF this] show ?thesis by blast
  qed
  then show "Typing_complete \<in> set out \<longleftrightarrow>
           Typing_progress (current_position self) True \<in> set out \<and>
           current_position s' = current_position self + 1 \<and>
           current_position s' = int (length (target_code s'))"
    and "completions out \<le> 1" by blast+
qed

lemma keyPressEvents_no_target:
  "target_code self = [] \<Longrightarrow> keyPressEvents self es = Inr (self, [])"
  by (induction es) (simp_all add: keyPressEvent_no_target)

lemma keyPressEvent_complete_by_input:
  assumes "0 \<le> current_position self"
  shows "\<exists>s' out. keyPressEvent self event = Inr (s', out) \<and>
           (Typing_complete \<in> set out \<longleftrightarrow>
              target_code self \<noteq> [] \<and> evaluated_key event \<and>
              current_position self + 1 = int (length (target_code self)) \<and>
              logical_char event = [target_code self ! nat (current_position self)])"
proof (cases "target_code self \<noteq> [] \<and> evaluated_key event")
  case False
  then show ?thesis by (auto simp: keyPressEvent_unified)
next
  case True
  show ?thesis
  proof (cases "current_position self < int (length (target_code self))")
    case False
    with True show ?thesis
      by (simp add: keyPressEvent_unified keyPressEvent_char_done)
  next
    case inside: True
    from keyPressEvent_char_in_range [OF assms inside, of "logical_char event"] True
    show ?thesis
      by (auto simp: keyPressEvent_unified)
  qed
qed

section \<open>An evaluated keystroke\<close>

text \<open>
  C1. In a session in progress (\<open>0 \<le> position < len(target)\<close>), an evaluated key event
  with logical character \<open>c\<close> counts one keystroke, reports exactly one outcome
  \<open>(position before, is_correct)\<close> with \<open>is_correct\<close> the comparison of \<open>c\<close> with the
  character of the target at the position before, counts one error exactly when the
  comparison fails and advances the position by one exactly when it succeeds; the target
  is unchanged. The text of an event is a \<open>str\<close>, so the comparison is with the
  one-character \<open>str\<close> read from the target.
\<close>

theorem keyPressEvent_evaluated:
  assumes "0 \<le> current_position self"
    and "current_position self < int (length (target_code self))"
    and "evaluated_key event"
  shows "\<exists>s' out. keyPressEvent self event = Inr (s', out) \<and>
           target_code s' = target_code self \<and>
           total_keystrokes s' = total_keystrokes self + 1 \<and>
           progress_outcomes out =
             [(current_position self,
               logical_char event = [target_code self ! nat (current_position self)])] \<and>
           error_count s' = error_count self +
             (if logical_char event = [target_code self ! nat (current_position self)]
              then 0 else 1) \<and>
           current_position s' = current_position self +
             (if logical_char event = [target_code self ! nat (current_position self)]
              then 1 else 0)"
proof -
  from assms(1,2) have "target_code self \<noteq> []" by auto
  then have "keyPressEvent self event = keyPressEvent_char self (logical_char event)"
    using assms(3) by (rule keyPressEvent_logical)
  then show ?thesis
    by (simp add: keyPressEvent_char_in_range [OF assms(1) assms(2)])
qed

theorem keyPressEvent_evaluated_witness:
  "0 \<le> current_position \<lparr>target_code = ''ab'', current_position = 1, error_count = 0,
      total_keystrokes = 1\<rparr> \<and>
   current_position \<lparr>target_code = ''ab'', current_position = 1, error_count = 0,
      total_keystrokes = 1\<rparr> < int (length ''ab'') \<and>
   evaluated_key (char_key CHR ''x'') \<and>
   (\<exists>s' out. keyPressEvent \<lparr>target_code = ''ab'', current_position = 1, error_count = 0,
      total_keystrokes = 1\<rparr> (char_key CHR ''x'') = Inr (s', out) \<and>
      target_code s' = ''ab'' \<and> total_keystrokes s' = 2 \<and>
      progress_outcomes out = [(1, False)] \<and> error_count s' = 1 \<and>
      current_position s' = 1)"
  using keyPressEvent_evaluated [of "\<lparr>target_code = ''ab'', current_position = 1,
      error_count = 0, total_keystrokes = 1\<rparr>" "char_key CHR ''x''"]
  by (simp add: evaluated_key_def char_key_def is_enter_def logical_char_def)

section \<open>The Enter key\<close>

text \<open>
  C2. In every state of a session (\<open>0 \<le> position \<le> len(target)\<close>), pressing Return or
  Enter, whatever the text and modifiers of the event, does exactly what the character
  branch does for a key whose text is the newline: the same fields, the same effects in
  the same order. And it does what the transition rule of the spec does for the logical
  character newline: the same fields and the same signals. So the keystroke is counted,
  it is correct exactly when the expected character is the newline, the position
  advances in that case and an error is counted otherwise.
\<close>

theorem enter_is_newline:
  assumes "is_enter event"
    and "0 \<le> current_position self"
    and "current_position self \<le> int (length (target_code self))"
  shows "keyPressEvent self event = keyPressEvent self (char_key newline) \<and>
         (\<exists>s' out. keyPressEvent self event = Inr (s', out) \<and>
            (s', signals out) = spec_transition_rule self newline)"
proof -
  have ev: "evaluated_key event" "logical_char event = [newline]"
    using assms(1) by (simp_all add: evaluated_key_def logical_char_def)
  have ch: "evaluated_key (char_key newline)" "logical_char (char_key newline) = [newline]"
    by (simp_all add: evaluated_key_def logical_char_def char_key_def is_enter_def)
  have same: "keyPressEvent self event = keyPressEvent self (char_key newline)"
  proof (cases "target_code self = []")
    case True
    then show ?thesis by (simp add: keyPressEvent_no_target)
  next
    case False
    then show ?thesis using ev ch by (simp add: keyPressEvent_logical)
  qed
  have spec: "\<exists>s' out. keyPressEvent self event = Inr (s', out) \<and>
            (s', signals out) = spec_transition_rule self newline"
  proof (cases "target_code self = []")
    case True
    then show ?thesis by (simp add: keyPressEvent_no_target spec_transition_rule_def)
  next
    case target: False
    show ?thesis
    proof (cases "current_position self < int (length (target_code self))")
      case False
      with assms(3) target ev show ?thesis
        by (simp add: keyPressEvent_logical keyPressEvent_char_done spec_transition_rule_def)
    next
      case True
      from keyPressEvent_char_in_range [OF assms(2) True, of "[newline]"] target ev True
      show ?thesis
        by (auto simp: keyPressEvent_logical spec_transition_rule_def Let_def)
    qed
  qed
  from same spec show ?thesis ..
qed

theorem enter_is_newline_witness:
  "is_enter return_key \<and>
   0 \<le> current_position \<lparr>target_code = [CHR ''a'', newline, CHR ''b''], current_position = 1,
      error_count = 0, total_keystrokes = 1\<rparr> \<and>
   current_position \<lparr>target_code = [CHR ''a'', newline, CHR ''b''], current_position = 1,
      error_count = 0, total_keystrokes = 1\<rparr> \<le> int (length [CHR ''a'', newline, CHR ''b'']) \<and>
   keyPressEvent \<lparr>target_code = [CHR ''a'', newline, CHR ''b''], current_position = 1,
      error_count = 0, total_keystrokes = 1\<rparr> return_key =
     Inr (\<lparr>target_code = [CHR ''a'', newline, CHR ''b''], current_position = 2,
            error_count = 0, total_keystrokes = 2\<rparr>,
          [Typing_progress 1 True, InsertText [newline], Accept]) \<and>
   spec_transition_rule \<lparr>target_code = [CHR ''a'', newline, CHR ''b''], current_position = 1,
      error_count = 0, total_keystrokes = 1\<rparr> newline =
     (\<lparr>target_code = [CHR ''a'', newline, CHR ''b''], current_position = 2,
            error_count = 0, total_keystrokes = 2\<rparr>, [Typing_progress 1 True]) \<and>
   keyPressEvent \<lparr>target_code = [CHR ''a'', newline, CHR ''b''], current_position = 1,
      error_count = 0, total_keystrokes = 1\<rparr> (char_key CHR ''x'') =
     Inr (\<lparr>target_code = [CHR ''a'', newline, CHR ''b''], current_position = 1,
            error_count = 1, total_keystrokes = 2\<rparr>,
          [Typing_progress 1 False, Accept])"
  using enter_is_newline [of return_key "\<lparr>target_code = [CHR ''a'', newline, CHR ''b''],
      current_position = 1, error_count = 0, total_keystrokes = 1\<rparr>"]
  by (simp add: is_enter_def return_key_def char_key_def keyPressEvent_def
      keyPressEvent_enter_def keyPressEvent_char_def str_getitem_def Let_def newline_def
      spec_transition_rule_def)

section \<open>Completion\<close>

text \<open>
  C3. From a state with a position of at least 0, a key event emits \<open>typing_complete\<close>
  exactly when a target is set, the event is one the widget evaluates (an Enter key or a
  character key), the position is the last one of the target and the logical character
  of the event is the character of the target there: a correct keystroke that advances
  the position to the length of the target. In terms of what the handler reports, the
  signal is emitted exactly when a correct outcome is reported and the position has
  moved by one to the length of the target; the session is then complete for good, every
  later event being ignored. For the target \<open>ab\<close>, the keys \<open>a\<close>, \<open>x\<close>, \<open>b\<close> give the
  outcomes \<open>(0, True)\<close>, \<open>(1, False)\<close>, \<open>(1, True)\<close>, position 2, one error and three
  keystrokes, and \<open>typing_complete\<close> is emitted by the last key only. For a target
  ending in a newline, a wrong key at the newline does not complete the session and the
  Return key does.
\<close>

theorem typing_complete_iff:
  "(\<forall>self event. 0 \<le> current_position self \<longrightarrow>
      (\<exists>s' out. keyPressEvent self event = Inr (s', out) \<and>
         (Typing_complete \<in> set out \<longleftrightarrow>
            target_code self \<noteq> [] \<and> evaluated_key event \<and>
            current_position self + 1 = int (length (target_code self)) \<and>
            logical_char event = [target_code self ! nat (current_position self)]))) \<and>
   (\<forall>self event s' out. keyPressEvent self event = Inr (s', out) \<longrightarrow>
      (Typing_complete \<in> set out \<longleftrightarrow>
         Typing_progress (current_position self) True \<in> set out \<and>
         current_position s' = current_position self + 1 \<and>
         current_position s' = int (length (target_code s'))) \<and>
      (Typing_complete \<in> set out \<longrightarrow>
         (\<forall>event'. \<exists>out'. keyPressEvent s' event' = Inr (s', out') \<and> signals out' = []))) \<and>
   keyPressEvents (fst (set_target_code init ''ab'')) [char_key CHR ''a''] =
     Inr (\<lparr>target_code = ''ab'', current_position = 1, error_count = 0,
            total_keystrokes = 1\<rparr>,
          [Typing_progress 0 True, InsertText ''a'', Accept]) \<and>
   keyPressEvents (fst (set_target_code init ''ab'')) [char_key CHR ''a'', char_key CHR ''x''] =
     Inr (\<lparr>target_code = ''ab'', current_position = 1, error_count = 1,
            total_keystrokes = 2\<rparr>,
          [Typing_progress 0 True, InsertText ''a'', Accept,
           Typing_progress 1 False, Accept]) \<and>
   keyPressEvents (fst (set_target_code init ''ab''))
       [char_key CHR ''a'', char_key CHR ''x'', char_key CHR ''b''] =
     Inr (\<lparr>target_code = ''ab'', current_position = 2, error_count = 1,
            total_keystrokes = 3\<rparr>,
          [Typing_progress 0 True, InsertText ''a'', Accept,
           Typing_progress 1 False, Accept,
           Typing_progress 1 True, InsertText ''b'', Typing_complete, Accept]) \<and>
   progress_outcomes
       [Typing_progress 0 True, InsertText ''a'', Accept,
        Typing_progress 1 False, Accept,
        Typing_progress 1 True, InsertText ''b'', Typing_complete, Accept] =
     [(0, True), (1, False), (1, True)] \<and>
   keyPressEvents (fst (set_target_code init [CHR ''a'', newline]))
       [char_key CHR ''a'', char_key CHR ''q'', return_key] =
     Inr (\<lparr>target_code = [CHR ''a'', newline], current_position = 2, error_count = 1,
            total_keystrokes = 3\<rparr>,
          [Typing_progress 0 True, InsertText ''a'', Accept,
           Typing_progress 1 False, Accept,
           Typing_progress 1 True, InsertText [newline], Typing_complete, Accept])"
proof -
  have by_input: "\<forall>self event. 0 \<le> current_position self \<longrightarrow>
      (\<exists>s' out. keyPressEvent self event = Inr (s', out) \<and>
         (Typing_complete \<in> set out \<longleftrightarrow>
            target_code self \<noteq> [] \<and> evaluated_key event \<and>
            current_position self + 1 = int (length (target_code self)) \<and>
            logical_char event = [target_code self ! nat (current_position self)]))"
    using keyPressEvent_complete_by_input by blast
  have general: "\<forall>self event s' out. keyPressEvent self event = Inr (s', out) \<longrightarrow>
      (Typing_complete \<in> set out \<longleftrightarrow>
         Typing_progress (current_position self) True \<in> set out \<and>
         current_position s' = current_position self + 1 \<and>
         current_position s' = int (length (target_code s'))) \<and>
      (Typing_complete \<in> set out \<longrightarrow>
         (\<forall>event'. \<exists>out'. keyPressEvent s' event' = Inr (s', out') \<and> signals out' = []))"
  proof (intro allI impI conjI)
    fix self event s' out
    assume step: "keyPressEvent self event = Inr (s', out)"
    show iff: "Typing_complete \<in> set out \<longleftrightarrow>
         Typing_progress (current_position self) True \<in> set out \<and>
         current_position s' = current_position self + 1 \<and>
         current_position s' = int (length (target_code s'))"
      by (rule keyPressEvent_complete_iff(1) [OF step])
    fix event'
    assume "Typing_complete \<in> set out"
    with iff have "int (length (target_code s')) \<le> current_position s'" by simp
    then have "target_code s' = [] \<or> int (length (target_code s')) \<le> current_position s'" ..
    from keyPressEvent_ignored [OF this, of event']
    show "\<exists>out'. keyPressEvent s' event' = Inr (s', out') \<and> signals out' = []" by blast
  qed
  have one: "keyPressEvents (fst (set_target_code init ''ab'')) [char_key CHR ''a''] =
     Inr (\<lparr>target_code = ''ab'', current_position = 1, error_count = 0,
            total_keystrokes = 1\<rparr>,
          [Typing_progress 0 True, InsertText ''a'', Accept])"
    by (simp add: set_target_code_def init_def char_key_def keyPressEvent_def
        keyPressEvent_char_def str_getitem_def Let_def)
  have two: "keyPressEvents (fst (set_target_code init ''ab''))
       [char_key CHR ''a'', char_key CHR ''x''] =
     Inr (\<lparr>target_code = ''ab'', current_position = 1, error_count = 1,
            total_keystrokes = 2\<rparr>,
          [Typing_progress 0 True, InsertText ''a'', Accept,
           Typing_progress 1 False, Accept])"
    by (simp add: set_target_code_def init_def char_key_def keyPressEvent_def
        keyPressEvent_char_def str_getitem_def Let_def)
  have three: "keyPressEvents (fst (set_target_code init ''ab''))
       [char_key CHR ''a'', char_key CHR ''x'', char_key CHR ''b''] =
     Inr (\<lparr>target_code = ''ab'', current_position = 2, error_count = 1,
            total_keystrokes = 3\<rparr>,
          [Typing_progress 0 True, InsertText ''a'', Accept,
           Typing_progress 1 False, Accept,
           Typing_progress 1 True, InsertText ''b'', Typing_complete, Accept])"
    by (simp add: set_target_code_def init_def char_key_def keyPressEvent_def
        keyPressEvent_char_def str_getitem_def Let_def)
  have outcomes: "progress_outcomes
       [Typing_progress 0 True, InsertText ''a'', Accept,
        Typing_progress 1 False, Accept,
        Typing_progress 1 True, InsertText ''b'', Typing_complete, Accept] =
     [(0, True), (1, False), (1, True)]"
    by simp
  have enter: "keyPressEvents (fst (set_target_code init [CHR ''a'', newline]))
       [char_key CHR ''a'', char_key CHR ''q'', return_key] =
     Inr (\<lparr>target_code = [CHR ''a'', newline], current_position = 2, error_count = 1,
            total_keystrokes = 3\<rparr>,
          [Typing_progress 0 True, InsertText ''a'', Accept,
           Typing_progress 1 False, Accept,
           Typing_progress 1 True, InsertText [newline], Typing_complete, Accept])"
    by (simp add: set_target_code_def init_def char_key_def return_key_def keyPressEvent_def
        keyPressEvent_char_def keyPressEvent_enter_def str_getitem_def Let_def newline_def)
  from by_input general one two three outcomes enter show ?thesis by blast
qed

theorem typing_complete_iff_witness:
  "0 \<le> current_position \<lparr>target_code = [CHR ''a'', newline], current_position = 1,
       error_count = 1, total_keystrokes = 2\<rparr> \<and>
   evaluated_key return_key \<and>
   logical_char return_key = [[CHR ''a'', newline] ! nat 1] \<and>
   keyPressEvent \<lparr>target_code = [CHR ''a'', newline], current_position = 1, error_count = 1,
       total_keystrokes = 2\<rparr> return_key =
     Inr (\<lparr>target_code = [CHR ''a'', newline], current_position = 2, error_count = 1,
            total_keystrokes = 3\<rparr>,
          [Typing_progress 1 True, InsertText [newline], Typing_complete, Accept]) \<and>
   Typing_complete \<in>
     set [Typing_progress 1 True, InsertText [newline], Typing_complete, Accept] \<and>
   (\<forall>event'. \<exists>out'. keyPressEvent \<lparr>target_code = [CHR ''a'', newline], current_position = 2,
       error_count = 1, total_keystrokes = 3\<rparr> event' =
      Inr (\<lparr>target_code = [CHR ''a'', newline], current_position = 2, error_count = 1,
            total_keystrokes = 3\<rparr>, out') \<and> signals out' = [])"
proof -
  have pos: "0 \<le> current_position \<lparr>target_code = [CHR ''a'', newline], current_position = 1,
       error_count = 1, total_keystrokes = 2\<rparr>"
    by simp
  have key: "evaluated_key return_key" "logical_char return_key = [[CHR ''a'', newline] ! nat 1]"
    by (simp_all add: evaluated_key_def logical_char_def is_enter_def return_key_def)
  have step: "keyPressEvent \<lparr>target_code = [CHR ''a'', newline], current_position = 1,
       error_count = 1, total_keystrokes = 2\<rparr> return_key =
     Inr (\<lparr>target_code = [CHR ''a'', newline], current_position = 2, error_count = 1,
            total_keystrokes = 3\<rparr>,
          [Typing_progress 1 True, InsertText [newline], Typing_complete, Accept])"
    using typing_complete_iff [THEN conjunct1, rule_format, OF pos, of return_key]
    by (simp add: return_key_def keyPressEvent_def keyPressEvent_enter_def str_getitem_def
        Let_def newline_def)
  have fired: "Typing_complete \<in>
      set [Typing_progress 1 True, InsertText [newline], Typing_complete, Accept]"
    by simp
  from typing_complete_iff [THEN conjunct2, THEN conjunct1, rule_format, OF step,
      THEN conjunct2, rule_format, OF fired] pos key step fired
  show ?thesis by blast
qed

section \<open>Input outside a session in progress\<close>

text \<open>
  C5. With no target set, and in a complete session (position equal to the length of the
  target), every key event leaves the target and the three counters as they are and
  emits neither \<open>typing_progress\<close> nor \<open>typing_complete\<close>.
\<close>

theorem input_ignored:
  assumes "target_code self = [] \<or> current_position self = int (length (target_code self))"
  shows "\<exists>out. keyPressEvent self event = Inr (self, out) \<and>
           progress_outcomes out = [] \<and> completions out = 0 \<and> signals out = []"
proof -
  from assms
  have "target_code self = [] \<or> int (length (target_code self)) \<le> current_position self"
    by auto
  then show ?thesis by (rule keyPressEvent_ignored)
qed

theorem input_ignored_witness:
  "(target_code init = [] \<or> current_position init = int (length (target_code init))) \<and>
   keyPressEvent init (char_key CHR ''a'') = Inr (init, []) \<and>
   (target_code \<lparr>target_code = ''ab'', current_position = 2, error_count = 1,
       total_keystrokes = 3\<rparr> = [] \<or>
    current_position \<lparr>target_code = ''ab'', current_position = 2, error_count = 1,
       total_keystrokes = 3\<rparr> = int (length ''ab'')) \<and>
   keyPressEvent \<lparr>target_code = ''ab'', current_position = 2, error_count = 1,
       total_keystrokes = 3\<rparr> (char_key CHR ''b'') =
     Inr (\<lparr>target_code = ''ab'', current_position = 2, error_count = 1,
       total_keystrokes = 3\<rparr>, [Accept])"
  using input_ignored [of init "char_key CHR ''a''"]
    input_ignored [of "\<lparr>target_code = ''ab'', current_position = 2, error_count = 1,
       total_keystrokes = 3\<rparr>" "char_key CHR ''b''"]
  by (simp add: init_def char_key_def keyPressEvent_def keyPressEvent_char_def)

section \<open>The invariants of a session\<close>

text \<open>
  C4. After \<open>set_target_code\<close>, from any prior state and for any target, every sequence
  of key events \<open>es\<close> ends in a state \<open>s1\<close> with \<open>0 \<le> position \<le> len(target)\<close> and
  \<open>error_count \<le> total_keystrokes\<close>; and in the state \<open>s2\<close> after any further events
  \<open>es'\<close>, the position, the error count and the keystroke count are each at least what
  they were in \<open>s1\<close>. The three metrics are functions of the state and change nothing.
\<close>

theorem session_invariants:
  "\<exists>s1 out1 s2 out2.
     keyPressEvents (fst (set_target_code self code)) es = Inr (s1, out1) \<and>
     keyPressEvents s1 es' = Inr (s2, out2) \<and>
     keyPressEvents (fst (set_target_code self code)) (es @ es') = Inr (s2, out1 @ out2) \<and>
     target_code s1 = code \<and>
     0 \<le> current_position s1 \<and> current_position s1 \<le> int (length code) \<and>
     error_count s1 \<le> total_keystrokes s1 \<and>
     current_position s1 \<le> current_position s2 \<and>
     error_count s1 \<le> error_count s2 \<and>
     total_keystrokes s1 \<le> total_keystrokes s2"
proof -
  from keyPressEvents_run [OF set_target_code_inv, of self code es]
  obtain s1 out1
    where run1: "keyPressEvents (fst (set_target_code self code)) es = Inr (s1, out1)"
      and inv1: "session_inv s1"
      and target1: "target_code s1 = code"
    by (auto simp: set_target_code_fields)
  from keyPressEvents_run [OF inv1, of es']
  obtain s2 out2
    where run2: "keyPressEvents s1 es' = Inr (s2, out2)"
      and mono: "current_position s1 \<le> current_position s2"
        "error_count s1 \<le> error_count s2" "total_keystrokes s1 \<le> total_keystrokes s2"
    by blast
  have "keyPressEvents (fst (set_target_code self code)) (es @ es') = Inr (s2, out1 @ out2)"
    by (simp add: keyPressEvents_append run1 run2)
  with run1 run2 inv1 target1 mono show ?thesis
    by (auto simp: session_inv_def)
qed

theorem session_invariants_witness:
  "keyPressEvents (fst (set_target_code init ''ab'')) [char_key CHR ''a'', char_key CHR ''x''] =
     Inr (\<lparr>target_code = ''ab'', current_position = 1, error_count = 1,
            total_keystrokes = 2\<rparr>,
          [Typing_progress 0 True, InsertText ''a'', Accept,
           Typing_progress 1 False, Accept]) \<and>
   (\<exists>s2 out2. keyPressEvents \<lparr>target_code = ''ab'', current_position = 1, error_count = 1,
            total_keystrokes = 2\<rparr> [char_key CHR ''b''] = Inr (s2, out2) \<and>
      1 \<le> current_position s2 \<and> 1 \<le> error_count s2 \<and> 2 \<le> total_keystrokes s2)"
  using session_invariants [of init "''ab''" "[char_key CHR ''a'', char_key CHR ''x'']"
      "[char_key CHR ''b'']"]
  by (simp add: set_target_code_def init_def char_key_def keyPressEvent_def
        keyPressEvent_char_def str_getitem_def Let_def)

section \<open>Words per minute\<close>

text \<open>
  C7, the value read in double arithmetic. \<open>get_wpm\<close> returns 0 for 0 elapsed
  seconds, raising nothing. For any other count of seconds, with the position and the
  count below \<open>2 ^ 63\<close> in magnitude, it
  returns \<open>(position / 5) / (elapsed_seconds / 60)\<close> as double arithmetic computes it:
  each of the three quotients rounded to the nearest double, and the guard on zero
  minutes never taken. It reads the position only, so two states with the same position
  give the same value whatever their keystroke and error counts. It returns a value and
  no state.
\<close>

theorem get_wpm_value:
  "get_wpm self 0 = Inr 0 \<and>
   (elapsed_seconds \<noteq> 0 \<and> \<bar>current_position self\<bar> < 2 ^ 63 \<and> \<bar>elapsed_seconds\<bar> < 2 ^ 63 \<longrightarrow>
      get_wpm self elapsed_seconds =
        Inr (round_double
               (round_double (real_of_int (current_position self) / 5) /
                round_double (real_of_int elapsed_seconds / 60)))) \<and>
   (current_position other = current_position self \<longrightarrow>
      get_wpm other elapsed_seconds = get_wpm self elapsed_seconds)"
  by (simp add: get_wpm_def truediv_def round_double_minutes)

theorem get_wpm_value_witness:
  "round_double (round_double (3 / 5) / round_double (12 / 60)) = 3 - 1 / 2 ^ 51 \<and>
   (12::int) \<noteq> 0 \<and>
   \<bar>current_position \<lparr>target_code = ''hello'', current_position = 3, error_count = 1,
       total_keystrokes = 4\<rparr>\<bar> < 2 ^ 63 \<and>
   \<bar>12::int\<bar> < 2 ^ 63 \<and>
   get_wpm \<lparr>target_code = ''hello'', current_position = 3, error_count = 1,
       total_keystrokes = 4\<rparr> 12 =
     Inr (round_double (round_double (3 / 5) / round_double (12 / 60))) \<and>
   get_wpm \<lparr>target_code = ''hello'', current_position = 3, error_count = 0,
       total_keystrokes = 3\<rparr> 12 =
   get_wpm \<lparr>target_code = ''hello'', current_position = 3, error_count = 1,
       total_keystrokes = 4\<rparr> 12"
proof -
  have "round_double (round_double (3 / 5) / round_double (12 / 60)) = 3 - 1 / 2 ^ 51"
    by code_simp
  moreover have "(12::int) \<noteq> 0 \<and>
   \<bar>current_position \<lparr>target_code = ''hello'', current_position = 3, error_count = 1,
       total_keystrokes = 4\<rparr>\<bar> < 2 ^ 63 \<and>
   \<bar>12::int\<bar> < 2 ^ 63 \<and>
   get_wpm \<lparr>target_code = ''hello'', current_position = 3, error_count = 1,
       total_keystrokes = 4\<rparr> 12 =
     Inr (round_double (round_double (3 / 5) / round_double (12 / 60))) \<and>
   get_wpm \<lparr>target_code = ''hello'', current_position = 3, error_count = 0,
       total_keystrokes = 3\<rparr> 12 =
   get_wpm \<lparr>target_code = ''hello'', current_position = 3, error_count = 1,
       total_keystrokes = 4\<rparr> 12"
    using get_wpm_value [of "\<lparr>target_code = ''hello'', current_position = 3,
      error_count = 1, total_keystrokes = 4\<rparr>" 12
      "\<lparr>target_code = ''hello'', current_position = 3, error_count = 0,
       total_keystrokes = 3\<rparr>"]
    by simp
  ultimately show ?thesis by (rule conjI)
qed

text \<open>
  The claim as it stands, with the exact quotient, fails: at position 3 after 12 seconds
  the exact quotient is 3 and \<open>get_wpm\<close> returns the double just below it.
\<close>

theorem get_wpm_exact_quotient_counterexample:
  "get_wpm \<lparr>target_code = ''hello'', current_position = 3, error_count = 1,
       total_keystrokes = 4\<rparr> 12 = Inr (3 - 1 / 2 ^ 51) \<and>
   get_wpm \<lparr>target_code = ''hello'', current_position = 3, error_count = 1,
       total_keystrokes = 4\<rparr> 12 \<noteq> Inr ((real_of_int 3 / 5) / (real_of_int 12 / 60))"
proof -
  have "get_wpm \<lparr>target_code = ''hello'', current_position = 3, error_count = 1,
       total_keystrokes = 4\<rparr> 12 = Inr (3 - 1 / 2 ^ 51)"
    by code_simp
  then show ?thesis by simp
qed

section \<open>The empty target\<close>

text \<open>
  C8. A session whose target is the empty string is in the state \<open>__init__\<close> leaves,
  with the position equal to the length of the target: every sequence of key events
  leaves it there with no effect at all, so no keystroke is evaluated;
  \<open>get_progress_percentage\<close> returns 0 and raises no \<open>ZeroDivisionError\<close>,
  \<open>get_accuracy\<close> returns 100 and \<open>get_wpm\<close> returns 0 for every count of seconds.
\<close>

theorem empty_target_session:
  "fst (set_target_code self []) = init \<and>
   current_position init = int (length (target_code init)) \<and>
   keyPressEvents init es = Inr (init, []) \<and>
   get_progress_percentage init = Inr 0 \<and>
   get_accuracy init = Inr 100 \<and>
   get_wpm init elapsed_seconds = Inr 0"
proof -
  have "keyPressEvents init es = Inr (init, [])"
    by (rule keyPressEvents_no_target) (simp add: init_def)
  moreover have "fst (set_target_code self []) = init"
    by (simp add: set_target_code_def init_def)
  moreover have "get_wpm init elapsed_seconds = Inr 0"
    by (simp add: get_wpm_def truediv_def init_def round_double_zero)
  ultimately show ?thesis
    by (simp add: get_progress_percentage_def get_accuracy_def init_def)
qed

section \<open>Reading the expected character\<close>

text \<open>
  C9. In every state reached from \<open>set_target_code\<close> by key events, no key event raises
  \<open>IndexError\<close>, and whenever an event reaches one of the two reads of
  \<open>self._target_code[self._current_position]\<close> the position is at least 0 and below
  the length of the target, so the read returns the character at that position.
\<close>

theorem expected_char_read_in_range:
  "\<exists>s out. keyPressEvents (fst (set_target_code self code)) es = Inr (s, out) \<and>
     (\<exists>s' out'. keyPressEvent s event = Inr (s', out')) \<and>
     (reads_expected_char s event \<longrightarrow>
        0 \<le> current_position s \<and> current_position s < int (length (target_code s)) \<and>
        str_getitem (target_code s) (current_position s) =
          Inr (target_code s ! nat (current_position s)))"
proof -
  from keyPressEvents_run [OF set_target_code_inv, of self code es]
  obtain s out
    where run: "keyPressEvents (fst (set_target_code self code)) es = Inr (s, out)"
      and inv: "session_inv s"
    by blast
  from keyPressEvent_step [OF inv, of event]
  have step: "\<exists>s' out'. keyPressEvent s event = Inr (s', out')" by blast
  have "0 \<le> current_position s \<and> current_position s < int (length (target_code s)) \<and>
        str_getitem (target_code s) (current_position s) =
          Inr (target_code s ! nat (current_position s))"
    if "reads_expected_char s event"
    using that inv by (simp add: reads_expected_char_def session_inv_def str_getitem_in_range)
  with run step show ?thesis by blast
qed

theorem expected_char_read_in_range_witness:
  "keyPressEvents (fst (set_target_code init ''ab'')) [char_key CHR ''a''] =
     Inr (\<lparr>target_code = ''ab'', current_position = 1, error_count = 0,
            total_keystrokes = 1\<rparr>,
          [Typing_progress 0 True, InsertText ''a'', Accept]) \<and>
   reads_expected_char \<lparr>target_code = ''ab'', current_position = 1, error_count = 0,
            total_keystrokes = 1\<rparr> (char_key CHR ''b'') \<and>
   str_getitem ''ab'' 1 = Inr CHR ''b''"
  using expected_char_read_in_range [of init "''ab''" "[char_key CHR ''a'']"
      "char_key CHR ''b''"]
  by (simp add: set_target_code_def init_def char_key_def keyPressEvent_def
        keyPressEvent_char_def str_getitem_def Let_def reads_expected_char_def
        evaluated_key_def is_enter_def)

section \<open>At most one completion\<close>

text \<open>
  C10. After \<open>set_target_code\<close>, over any sequence of key events \<open>typing_complete\<close> is
  emitted at most once: once when the target is not empty and the position has reached
  its length, never otherwise, so never for an empty target. A further key event emits
  it exactly when the position was below the length before the event and equals it
  after, and then it had not been emitted before.
\<close>

theorem typing_complete_at_most_once:
  "\<exists>s out s' out'.
     keyPressEvents (fst (set_target_code self code)) es = Inr (s, out) \<and>
     completions out \<le> 1 \<and>
     completions out = (if code \<noteq> [] \<and> current_position s = int (length code) then 1 else 0) \<and>
     keyPressEvent s event = Inr (s', out') \<and>
     (Typing_complete \<in> set out' \<longleftrightarrow>
        current_position s < int (length code) \<and> current_position s' = int (length code))"
proof -
  from keyPressEvents_run [OF set_target_code_inv, of self code es]
  obtain s out
    where run: "keyPressEvents (fst (set_target_code self code)) es = Inr (s, out)"
      and inv: "session_inv s"
      and target: "target_code s = code"
      and count: "completions out =
        (if 0 < int (length code) \<and> current_position s = int (length code) then 1 else 0)"
    by (auto simp: set_target_code_fields)
  from keyPressEvent_step [OF inv, of event]
  obtain s' out'
    where step: "keyPressEvent s event = Inr (s', out')"
      and fired: "completions out' =
        (if current_position s < int (length code) \<and> current_position s' = int (length code)
         then 1 else 0)"
    by (auto simp: target)
  from fired have "Typing_complete \<in> set out' \<longleftrightarrow>
        current_position s < int (length code) \<and> current_position s' = int (length code)"
    by (simp add: completions_pos_iff [symmetric])
  with run count step show ?thesis by auto
qed

theorem typing_complete_at_most_once_witness:
  "keyPressEvents (fst (set_target_code init ''ab''))
       [char_key CHR ''a'', char_key CHR ''b'', char_key CHR ''b''] =
     Inr (\<lparr>target_code = ''ab'', current_position = 2, error_count = 0,
            total_keystrokes = 2\<rparr>,
          [Typing_progress 0 True, InsertText ''a'', Accept,
           Typing_progress 1 True, InsertText ''b'', Typing_complete, Accept, Accept]) \<and>
   completions [Typing_progress 0 True, InsertText ''a'', Accept,
           Typing_progress 1 True, InsertText ''b'', Typing_complete, Accept, Accept] = 1 \<and>
   keyPressEvent \<lparr>target_code = ''ab'', current_position = 2, error_count = 0,
            total_keystrokes = 2\<rparr> (char_key CHR ''b'') =
     Inr (\<lparr>target_code = ''ab'', current_position = 2, error_count = 0,
            total_keystrokes = 2\<rparr>, [Accept])"
  using typing_complete_at_most_once [of init "''ab''"
      "[char_key CHR ''a'', char_key CHR ''b'', char_key CHR ''b'']" "char_key CHR ''b''"]
  by (simp add: set_target_code_def init_def char_key_def keyPressEvent_def
        keyPressEvent_char_def str_getitem_def Let_def completions_simps)

end
